theory Spec2Isabelle
  imports Main "HOL-Library.Word" "HOL-Library.AList" "HOL-Library.Sublist"
begin

section \<open>Static discovery of tagged functions (figarocli.py, FigCtlTagFilter)\<close>

text \<open>
  The part of Python's abstract syntax that the visitor can tell apart. A decorator is an
  expression; only \<open>ast.Call\<close> and the \<open>id\<close> of an \<open>ast.Name\<close> are inspected.
  Statements are the function definitions, the other statements that hold statement
  lists (\<open>async def\<close>, \<open>class\<close>, and every compound statement such as \<open>if\<close>, \<open>for\<close>,
  \<open>while\<close>, \<open>with\<close>, \<open>try\<close>, \<open>match\<close>, whose nested statement lists are given in field
  order), and the statements without nested statements. Expressions never contain
  statements, so the visitor finds function definitions only through statement lists.
\<close>

datatype expr =
    Name string
  | Attribute expr string
  | Call expr "expr list"
  | OtherExpr

datatype stmt =
    FunctionDef string "expr list" "stmt list"
  | AsyncFunctionDef string "expr list" "stmt list"
  | ClassDef string "expr list" "stmt list"
  | Block "stmt list"
  | Simple

text \<open>\<open>isinstance(dec, ast.Call) and getattr(dec.func, "id", "") == "figarotag"\<close>:
  only an \<open>ast.Name\<close> has the attribute \<open>id\<close>; for every other callee the default
  \<open>""\<close> is compared.\<close>

fun func_id :: "expr \<Rightarrow> string" where
  "func_id (Name ident) = ident"
| "func_id _ = ''''"

fun is_figarotag_call :: "expr \<Rightarrow> bool" where
  "is_figarotag_call (Call func args) = (func_id func = ''figarotag'')"
| "is_figarotag_call _ = False"

text \<open>\<open>visit_FunctionDef\<close> appends the name once for every matching decorator and then
  calls \<open>generic_visit\<close>; every other node is handled by \<open>generic_visit\<close> alone, which
  visits the children. The list \<open>tagged_functions\<close> of the visitor is threaded through.\<close>

fun visit :: "stmt \<Rightarrow> string list \<Rightarrow> string list" where
  "visit (FunctionDef name decorator_list body) tagged =
     fold visit body
       (fold (\<lambda>dec acc. if is_figarotag_call dec then acc @ [name] else acc)
          decorator_list tagged)"
| "visit (AsyncFunctionDef name decorator_list body) tagged = fold visit body tagged"
| "visit (ClassDef name decorator_list body) tagged = fold visit body tagged"
| "visit (Block body) tagged = fold visit body tagged"
| "visit Simple tagged = tagged"

text \<open>\<open>tag_filter = FigCtlTagFilter(); tag_filter.visit(tree)\<close> on the module, whose body
  is the list of top-level statements.\<close>

definition tagged_functions :: "stmt list \<Rightarrow> string list" where
  "tagged_functions tree = fold visit tree []"

text \<open>
  Reference notions for stating the claims. The tag marker is a decorator that is a call
  of the bare name \<open>figarotag\<close>; it is given here by the shape of the expression, apart
  from the test of the visitor.
\<close>

fun marks :: "expr \<Rightarrow> bool" where
  "marks (Call (Name ident) args) = (ident = ''figarotag'')"
| "marks decorator = False"

text \<open>The plain function definitions (\<open>def\<close>, not \<open>async def\<close>) of a statement in
  declaration order (pre-order, at any depth), as pairs of name and decorator list; of a
  file, those at any depth, those that are statements of the module body, and those
  inside another statement.\<close>

fun defs :: "stmt \<Rightarrow> (string \<times> expr list) list" where
  "defs (FunctionDef name decorator_list body) =
     (name, decorator_list) # concat (map defs body)"
| "defs (AsyncFunctionDef name decorator_list body) = concat (map defs body)"
| "defs (ClassDef name decorator_list body) = concat (map defs body)"
| "defs (Block body) = concat (map defs body)"
| "defs Simple = []"

definition all_defs :: "stmt list \<Rightarrow> (string \<times> expr list) list" where
  "all_defs tree = concat (map defs tree)"

fun top_level_def :: "stmt \<Rightarrow> (string \<times> expr list) list" where
  "top_level_def (FunctionDef name decorator_list body) = [(name, decorator_list)]"
| "top_level_def other = []"

definition top_level_defs :: "stmt list \<Rightarrow> (string \<times> expr list) list" where
  "top_level_defs tree = concat (map top_level_def tree)"

fun nested_in :: "stmt \<Rightarrow> (string \<times> expr list) list" where
  "nested_in (FunctionDef name decorator_list body) = concat (map defs body)"
| "nested_in (AsyncFunctionDef name decorator_list body) = concat (map defs body)"
| "nested_in (ClassDef name decorator_list body) = concat (map defs body)"
| "nested_in (Block body) = concat (map defs body)"
| "nested_in Simple = []"

definition nested_defs :: "stmt list \<Rightarrow> (string \<times> expr list) list" where
  "nested_defs tree = concat (map nested_in tree)"



text \<open>How often a definition carries the marker, whether it carries it, and the entries
  that a definition carrying it \<open>n\<close> times stands for.\<close>

definition tag_count :: "string \<times> expr list \<Rightarrow> nat" where
  "tag_count d = length (filter marks (snd d))"

definition tagged :: "string \<times> expr list \<Rightarrow> bool" where
  "tagged d = (0 < tag_count d)"

definition entries_of :: "string \<times> expr list \<Rightarrow> string list" where
  "entries_of d = replicate (tag_count d) (fst d)"

section \<open>Checksum of a file (figarocli.py, checksum)\<close>

text \<open>
  \<open>hashlib\<close> is a library outside the repository. Its hash object is taken by its
  documented contract: \<open>update\<close> feeds bytes to the message, repeated calls being the
  same as one call with the concatenation, and \<open>hexdigest\<close> is the digest of the
  message fed so far. The object is therefore the message fed so far, and the digest
  function of each algorithm name is a parameter (\<open>hashlib_new\<close>).
\<close>

type_synonym byte = "8 word"

definition hash_update :: "byte list \<Rightarrow> byte list \<Rightarrow> byte list" where
  "hash_update hash_function chunk = hash_function @ chunk"

text \<open>\<open>for chunk in iter(lambda: f.read(8192), b""): hash_function.update(chunk)\<close>.
  The first argument is the content from the read position on; \<open>f.read(8192)\<close> on a
  file opened in binary mode returns the next 8192 bytes, or fewer at the end of the file,
  and the loop ends at the first empty read.\<close>

function read_chunks :: "byte list \<Rightarrow> byte list \<Rightarrow> byte list" where
  "read_chunks unread hash_function =
     (if take 8192 unread = [] then hash_function
      else read_chunks (drop 8192 unread) (hash_update hash_function (take 8192 unread)))"
  by pat_completeness auto
termination
  by (relation "measure (\<lambda>(unread, hash_function). length unread)") auto

declare read_chunks.simps [simp del]

definition checksum :: "(string \<Rightarrow> byte list \<Rightarrow> string) \<Rightarrow> byte list \<Rightarrow> string \<Rightarrow> string" where
  "checksum hashlib_new content algorithm = hashlib_new algorithm (read_chunks content [])"

section \<open>Fingerprint store and file system\<close>

text \<open>
  A path is the list of the components of an absolute, resolved path, so that
  \<open>resolve\<close> and \<open>str\<close> are the identity and \<open>joinpath\<close> appends a component.
  Every file and directory has this one spelling: a search directory given twice under
  two spellings, for which the code keeps two keys in \<open>fig_generators\<close>, is not
  represented.
  A record of the store is the JSON object read by \<open>json.load\<close>: each of the keys
  \<open>checksum\<close> and \<open>dependents\<close> may be missing; when present, the checksum is a
  string and the dependents are a list of strings, as in the documented format of the
  store file, and a record has no other key. The store is the Python \<open>dict\<close> in
  insertion order: \<open>AList.update\<close> replaces the value of a present key in place and
  appends an absent one, as assignment to a \<open>dict\<close> item does.
\<close>

type_synonym path = "string list"

record fingerprint =
  stored_checksum :: "string option"
  dependents :: "path list option"

type_synonym store = "(path \<times> fingerprint) list"

text \<open>A file system entry is a directory or a regular file. Of the content of a file only
  what \<open>json.load\<close> makes of it is kept: \<open>None\<close> when the content is not a JSON
  document, so that \<open>json.load\<close> raises, and otherwise the store it holds. The JSON
  documents that \<open>json.load\<close> accepts but that are not of the shape above are not
  represented.\<close>

datatype fnode = Dir | File "store option"

type_synonym fs = "(path \<times> fnode) list"

definition exists :: "fs \<Rightarrow> path \<Rightarrow> bool" where
  "exists d p = (map_of d p \<noteq> None)"

definition is_dir :: "fs \<Rightarrow> path \<Rightarrow> bool" where
  "is_dir d p = (map_of d p = Some Dir)"

definition is_file :: "fs \<Rightarrow> path \<Rightarrow> bool" where
  "is_file d p = (case map_of d p of Some (File c) \<Rightarrow> True | _ \<Rightarrow> False)"

datatype py_exception =
    AttributeError
  | FileNotFoundError
  | FileExistsError
  | IsADirectoryError
  | NotADirectoryError
  | JSONDecodeError
  | SyntaxError
  | ValueError
  | SystemExit nat
  | OtherException string

definition mkdir :: "path \<Rightarrow> fs \<Rightarrow> py_exception + fs" where
  "mkdir p d =
     (case map_of d p of
        Some Dir \<Rightarrow> Inr d
      | Some (File c) \<Rightarrow> Inl FileExistsError
      | None \<Rightarrow>
          (case map_of d (butlast p) of
             Some Dir \<Rightarrow> Inr (AList.update p Dir d)
           | Some (File c) \<Rightarrow> Inl NotADirectoryError
           | None \<Rightarrow> Inl FileNotFoundError))"

text \<open>\<open>open(p, "w")\<close> followed by writing the content and closing the file.\<close>

definition open_w :: "path \<Rightarrow> store option \<Rightarrow> fs \<Rightarrow> py_exception + fs" where
  "open_w p content d =
     (case map_of d p of
        Some Dir \<Rightarrow> Inl IsADirectoryError
      | _ \<Rightarrow>
          (case map_of d (butlast p) of
             Some Dir \<Rightarrow> Inr (AList.update p (File content) d)
           | Some (File c) \<Rightarrow> Inl NotADirectoryError
           | None \<Rightarrow> Inl FileNotFoundError))"

definition iterdir :: "fs \<Rightarrow> path \<Rightarrow> path list" where
  "iterdir d p = filter (\<lambda>q. q \<noteq> [] \<and> butlast q = p) (map fst d)"

text \<open>\<open>dir.rglob("*.py")\<close>: the entries below \<open>dir\<close> whose last component ends in
  \<open>.py\<close>, in the order of the file system.\<close>

definition rglob :: "fs \<Rightarrow> path \<Rightarrow> path list" where
  "rglob d p = filter (\<lambda>q. strict_prefix p q \<and> suffix ''.py'' (last q)) (map fst d)"

section \<open>The command line tool (figarocli.py, main)\<close>

text \<open>The parsed arguments. \<open>--dir\<close> has \<open>nargs="*"\<close> and default \<open>None\<close>. The flag
  \<open>--verbose\<close> adds progress lines to the output; the lines are left out, and the one
  computation among them that can fail (line 152) is kept.\<close>

record args =
  dir :: "path list option"
  out :: path
  gitignore :: bool
  force :: bool
  metafile :: path
  verbose :: bool

text \<open>A module attribute that a discovered name resolves to: the annotations of its
  parameters (\<open>inspect.signature\<close>), the attributes \<open>_figaroname\<close> and \<open>_figaroext\<close>
  when set, and what a call with the output path does to the file system, or the
  exception it raises.\<close>

datatype annotation = PathAnnotation | OtherAnnotation

record callable =
  parameters :: "annotation list"
  figaroname :: "string option"
  figaroext :: "string option"
  call :: "path \<Rightarrow> fs \<Rightarrow> py_exception + fs"

text \<open>What the run reads from outside and never writes: the working directory, the
  digest functions of \<open>hashlib\<close>, and of every source file its bytes, the result of
  \<open>ast.parse\<close> on its text and the result of executing it as a module (the attributes of
  the module, or the exception raised while loading it; a module is taken to change no
  file while it loads).\<close>

record env =
  cwd :: path
  hashlib_new :: "string \<Rightarrow> byte list \<Rightarrow> string"
  read_bytes :: "path \<Rightarrow> byte list"
  ast_parse :: "path \<Rightarrow> py_exception + stmt list"
  exec_module :: "path \<Rightarrow> py_exception + (string \<rightharpoonup> callable)"

datatype message =
    NoSearchDirectory
  | DirNotExist path
  | DirNotDirectory path
  | OutNotDirectory path
  | FunctionNotFound
  | InvalidSignature
  | NameNotFound
  | ExtNotFound
  | MetaCorrupt

text \<open>The state of a run: the store in memory, the file system, the lines printed, and
  the calls \<open>fig_gen(save_path)\<close> made so far (source file and function name).\<close>

record state =
  meta_content :: store
  disk :: fs
  printed :: "message list"
  invoked :: "(path \<times> string) list"

definition print_msg :: "message \<Rightarrow> state \<Rightarrow> state" where
  "print_msg m s = s\<lparr>printed := printed s @ [m]\<rparr>"

subsection \<open>Staleness evaluation (lines 220 to 267)\<close>

datatype verdict = Run | Skip | Corrupt

text \<open>Lines 253 to 259, on the record \<open>r\<close> that the store holds for \<open>full_fp\<close>.\<close>

definition check_dependents :: "path \<Rightarrow> fingerprint \<Rightarrow> path \<Rightarrow> state \<Rightarrow> verdict \<times> state" where
  "check_dependents full_fp r save_path s =
     (case dependents r of
        None \<Rightarrow> (Corrupt, print_msg MetaCorrupt s)
      | Some ds \<Rightarrow>
          if save_path \<notin> set ds
          then (Run, s\<lparr>meta_content :=
                  AList.update full_fp (r\<lparr>dependents := Some (ds @ [save_path])\<rparr>) (meta_content s)\<rparr>)
          else (Run, s))"

definition evaluate :: "bool \<Rightarrow> path \<Rightarrow> string \<Rightarrow> path \<Rightarrow> state \<Rightarrow> verdict \<times> state" where
  "evaluate forced full_fp script_checksum save_path s =
     (case map_of (meta_content s) full_fp of
        Some r \<Rightarrow>
          (case stored_checksum r of
             None \<Rightarrow> (Corrupt, print_msg MetaCorrupt s)
           | Some stored \<Rightarrow>
               if stored = script_checksum \<and> \<not> forced then
                 (if is_file (disk s) save_path then (Skip, s)
                  else check_dependents full_fp r save_path s)
               else
                 check_dependents full_fp (r\<lparr>stored_checksum := Some script_checksum\<rparr>) save_path
                   (s\<lparr>meta_content :=
                      AList.update full_fp (r\<lparr>stored_checksum := Some script_checksum\<rparr>)
                        (meta_content s)\<rparr>))
      | None \<Rightarrow>
          (Run, s\<lparr>meta_content :=
             AList.update full_fp
               \<lparr>stored_checksum = Some script_checksum, dependents = Some [save_path]\<rparr>
               (meta_content s)\<rparr>))"

subsection \<open>One discovered function of a loaded module (lines 188 to 276)\<close>

text \<open>The result is \<open>Inr\<close> of the state when the loop goes on, and \<open>Inl\<close> of the
  exception and the state reached when an exception leaves the loop. \<open>getattr\<close> of a
  missing attribute raises \<open>AttributeError\<close>.\<close>

definition save_path_of :: "args \<Rightarrow> string \<Rightarrow> string \<Rightarrow> path" where
  "save_path_of a file_name file_ext = out a @ [file_name @ ''.'' @ file_ext]"

definition run_function ::
  "env \<Rightarrow> args \<Rightarrow> path \<Rightarrow> (string \<rightharpoonup> callable) \<Rightarrow> string \<Rightarrow> state \<Rightarrow> (py_exception \<times> state) + state" where
  "run_function e a fp module fnc s =
     (case module fnc of
        None \<Rightarrow> Inl (AttributeError, print_msg FunctionNotFound s)
      | Some fig_gen \<Rightarrow>
          if length (parameters fig_gen) \<noteq> 1 then Inr (print_msg InvalidSignature s)
          else if hd (parameters fig_gen) \<noteq> PathAnnotation then Inr (print_msg InvalidSignature s)
          else
            (case figaroname fig_gen of
               None \<Rightarrow> Inl (AttributeError, print_msg NameNotFound s)
             | Some file_name \<Rightarrow>
                 (case figaroext fig_gen of
                    None \<Rightarrow> Inl (AttributeError, print_msg ExtNotFound s)
                  | Some file_ext \<Rightarrow>
                      (case evaluate (force a) fp
                              (checksum (hashlib_new e) (read_bytes e fp) ''sha256'')
                              (save_path_of a file_name file_ext) s of
                         (Run, s') \<Rightarrow>
                           (case call fig_gen (save_path_of a file_name file_ext) (disk s') of
                              Inl ex \<Rightarrow> Inl (ex, s'\<lparr>invoked := invoked s' @ [(fp, fnc)]\<rparr>)
                            | Inr d \<Rightarrow> Inr (s'\<lparr>disk := d, invoked := invoked s' @ [(fp, fnc)]\<rparr>))
                       | (Skip, s') \<Rightarrow> Inr s'
                       | (Corrupt, s') \<Rightarrow> Inr s'))))"

fun run_functions ::
  "env \<Rightarrow> args \<Rightarrow> path \<Rightarrow> (string \<rightharpoonup> callable) \<Rightarrow> string list \<Rightarrow> state \<Rightarrow> (py_exception \<times> state) + state" where
  "run_functions e a fp module [] s = Inr s"
| "run_functions e a fp module (fnc # fncts) s =
     (case run_function e a fp module fnc s of
        Inl x \<Rightarrow> Inl x
      | Inr s' \<Rightarrow> run_functions e a fp module fncts s')"

text \<open>\<open>for fp, fncts in fig_generators.items()\<close>: the file is executed as a module, then
  its functions are handled in order.\<close>

fun run_generators ::
  "env \<Rightarrow> args \<Rightarrow> (path \<times> string list) list \<Rightarrow> state \<Rightarrow> (py_exception \<times> state) + state" where
  "run_generators e a [] s = Inr s"
| "run_generators e a ((fp, fncts) # items) s =
     (case exec_module e fp of
        Inl ex \<Rightarrow> Inl (ex, s)
      | Inr module \<Rightarrow>
          (case run_functions e a fp module fncts s of
             Inl x \<Rightarrow> Inl x
           | Inr s' \<Rightarrow> run_generators e a items s'))"

subsection \<open>Discovery over the search directories (lines 137 to 167)\<close>

definition src_files :: "fs \<Rightarrow> path list \<Rightarrow> path list" where
  "src_files d dirs = concat (map (\<lambda>p. filter (is_file d) (rglob d p)) dirs)"

text \<open>Under \<open>--verbose\<close>, \<open>file.resolve().relative_to(Path.cwd())\<close> is evaluated
  for the progress line and raises \<open>ValueError\<close> for a file that is not below the
  working directory.\<close>

fun find_generators ::
  "env \<Rightarrow> args \<Rightarrow> path list \<Rightarrow> (path \<times> string list) list
     \<Rightarrow> py_exception + (path \<times> string list) list" where
  "find_generators e a [] fig_generators = Inr fig_generators"
| "find_generators e a (file # files) fig_generators =
     (if verbose a \<and> \<not> prefix (cwd e) file then Inl ValueError
      else
        (case ast_parse e file of
           Inl ex \<Rightarrow> Inl ex
         | Inr tree \<Rightarrow>
             if length (tagged_functions tree) > 0
             then find_generators e a files
                    (AList.update file (tagged_functions tree) fig_generators)
             else find_generators e a files fig_generators))"

subsection \<open>Validation, store file, cleanup and exit\<close>

fun check_dirs :: "fs \<Rightarrow> path list \<Rightarrow> message option" where
  "check_dirs d [] = None"
| "check_dirs d (p # ps) =
     (if \<not> exists d p then Some (DirNotExist p)
      else if \<not> is_dir d p then Some (DirNotDirectory p)
      else check_dirs d ps)"

definition load_meta :: "fs \<Rightarrow> path \<Rightarrow> py_exception + store" where
  "load_meta d p =
     (case map_of d p of
        None \<Rightarrow> Inr []
      | Some Dir \<Rightarrow> Inl IsADirectoryError
      | Some (File None) \<Rightarrow> Inl JSONDecodeError
      | Some (File (Some m)) \<Rightarrow> Inr m)"

definition cleanup :: "args \<Rightarrow> fs \<Rightarrow> py_exception + fs" where
  "cleanup a d =
     (case map_of d (out a) of
        None \<Rightarrow> Inl FileNotFoundError
      | Some (File c) \<Rightarrow> Inl NotADirectoryError
      | Some Dir \<Rightarrow>
          if iterdir d (out a) = [] then Inr (AList.delete (out a) d)
          else if gitignore a then open_w (out a @ [''.gitignore'']) None d
          else Inr d)"

text \<open>Lines 119 to 295: everything after the validation of the arguments.\<close>

definition main_body :: "env \<Rightarrow> args \<Rightarrow> path list \<Rightarrow> state \<Rightarrow> (py_exception \<times> state) + state" where
  "main_body e a dirs s =
     (case load_meta (disk s) (metafile a) of
        Inl ex \<Rightarrow> Inl (ex, s)
      | Inr m \<Rightarrow>
          (case find_generators e a (src_files (disk s) dirs) [] of
             Inl ex \<Rightarrow> Inl (ex, s\<lparr>meta_content := m\<rparr>)
           | Inr fig_generators \<Rightarrow>
               (case run_generators e a fig_generators (s\<lparr>meta_content := m\<rparr>) of
                  Inl x \<Rightarrow> Inl x
                | Inr s' \<Rightarrow>
                    (case cleanup a (disk s') of
                       Inl ex \<Rightarrow> Inl (ex, s')
                     | Inr d \<Rightarrow>
                         (case open_w (metafile a) (Some (meta_content s')) d of
                            Inl ex \<Rightarrow> Inl (ex, s'\<lparr>disk := d\<rparr>)
                          | Inr d' \<Rightarrow> Inr (s'\<lparr>disk := d'\<rparr>))))))"

text \<open>How the process ends: \<open>exit(1)\<close>, the return of \<open>main\<close> (exit code 0), or an
  exception that nothing catches.\<close>

datatype ending = Exit nat | Traceback py_exception


definition init_state :: "fs \<Rightarrow> state" where
  "init_state d = \<lparr>meta_content = [], disk = d, printed = [], invoked = []\<rparr>"

definition configure_out :: "args \<Rightarrow> fs \<Rightarrow> py_exception + fs" where
  "configure_out a d = (if \<not> exists d (out a) then mkdir (out a) d else Inr d)"

definition main :: "env \<Rightarrow> args \<Rightarrow> fs \<Rightarrow> ending \<times> state" where
  "main e a d =
     (case dir a of
        None \<Rightarrow> (Exit 1, print_msg NoSearchDirectory (init_state d))
      | Some dirs \<Rightarrow>
          if dirs = [] then (Exit 1, print_msg NoSearchDirectory (init_state d))
          else
            (case check_dirs d dirs of
               Some m \<Rightarrow> (Exit 1, print_msg m (init_state d))
             | None \<Rightarrow>
                 (case configure_out a d of
                    Inl ex \<Rightarrow> (Traceback ex, init_state d)
                  | Inr d' \<Rightarrow>
                      if \<not> is_dir d' (out a)
                      then (Exit 1, print_msg (OutNotDirectory (out a)) (init_state d'))
                      else
                        (case main_body e a dirs (init_state d') of
                           Inl (ex, s) \<Rightarrow> (Traceback ex, s)
                         | Inr s \<Rightarrow> (Exit 0, s)))))"

section \<open>Notions used to state the properties\<close>

text \<open>The state in which a result of the loops ends, whether the loop went on or an
  exception left it.\<close>

fun final_state :: "(py_exception \<times> state) + state \<Rightarrow> state" where
  "final_state (Inl (ex, s)) = s"
| "final_state (Inr s) = s"

text \<open>The input validation of \<open>main\<close> fails: no search directory, a search directory
  that does not exist or is not a directory, or an output path that exists and is not a
  directory.\<close>

definition invalid_input :: "args \<Rightarrow> fs \<Rightarrow> bool" where
  "invalid_input a d =
     (case dir a of
        None \<Rightarrow> True
      | Some dirs \<Rightarrow>
          dirs = [] \<or> (\<exists>p \<in> set dirs. \<not> exists d p \<or> \<not> is_dir d p)
          \<or> (exists d (out a) \<and> \<not> is_dir d (out a)))"

text \<open>The dependents of every record only grow from store \<open>m\<close> to store \<open>m'\<close>: the
  record is still there, still has its dependents, and the old list is a prefix of the
  new one.\<close>

definition dependents_grow :: "store \<Rightarrow> store \<Rightarrow> bool" where
  "dependents_grow m m' =
     (\<forall>k r ds. map_of m k = Some r \<and> dependents r = Some ds \<longrightarrow>
        (\<exists>r' ds'. map_of m' k = Some r' \<and> dependents r' = Some ds' \<and> prefix ds ds'))"


text \<open>The output path for which a discovered name reaches the staleness evaluation: the
  name resolves, the signature is accepted and both attributes are set.\<close>

definition target :: "args \<Rightarrow> (string \<rightharpoonup> callable) \<Rightarrow> string \<Rightarrow> path option" where
  "target a module fnc =
     (case module fnc of
        None \<Rightarrow> None
      | Some fig_gen \<Rightarrow>
          if length (parameters fig_gen) \<noteq> 1 \<or> hd (parameters fig_gen) \<noteq> PathAnnotation then None
          else
            (case figaroname fig_gen of
               None \<Rightarrow> None
             | Some file_name \<Rightarrow>
                 (case figaroext fig_gen of
                    None \<Rightarrow> None
                  | Some file_ext \<Rightarrow> Some (save_path_of a file_name file_ext))))"




section \<open>Example inputs\<close>

text \<open>The scripts of \<open>example/figscripts\<close> as the visitor sees them: \<open>line.py\<close> defines
  \<open>fig_line\<close> under \<open>@figarotag(name="line")\<close>; \<open>parabola.py\<close> defines the untagged
  \<open>parabola_function\<close> and the tagged \<open>fig_parabola\<close> and \<open>fig_parabola2\<close>.\<close>

definition line_py :: "stmt list" where
  "line_py =
     [Simple,
      FunctionDef ''fig_line'' [Call (Name ''figarotag'') [OtherExpr]] [Simple]]"

definition parabola_py :: "stmt list" where
  "parabola_py =
     [Simple,
      FunctionDef ''parabola_function'' [] [Simple],
      FunctionDef ''fig_parabola'' [Call (Name ''figarotag'') [OtherExpr, OtherExpr]] [Simple],
      FunctionDef ''fig_parabola2'' [Call (Name ''figarotag'') [OtherExpr, OtherExpr]] [Simple]]"

text \<open>A script whose only tagged function is a method of a class, one whose function is
  decorated with the bare name, and one decorated through a qualified name.\<close>

definition method_py :: "stmt list" where
  "method_py =
     [ClassDef ''Plots'' []
        [FunctionDef ''fig_method'' [Call (Name ''figarotag'') []] [Simple]]]"

text \<open>A script with two tagged functions.\<close>

definition two_py :: "stmt list" where
  "two_py =
     [FunctionDef ''fig_line'' [Call (Name ''figarotag'') []] [Simple],
      FunctionDef ''fig_clean'' [Call (Name ''figarotag'') []] [Simple]]"


definition twice_py :: "stmt list" where
  "twice_py =
     [FunctionDef ''fig_twice''
        [Call (Name ''figarotag'') [], Call (Name ''figarotag'') [OtherExpr]] [Simple]]"

definition bare_py :: "stmt list" where
  "bare_py =
     [FunctionDef ''fig_bare'' [Name ''figarotag''] [Simple],
      FunctionDef ''fig_qualified'' [Call (Attribute (Name ''figaro'') ''figarotag'') []] [Simple]]"

text \<open>A figure function that writes its output file, as \<open>fig.savefig\<close> does, one with
  a second parameter, and one that raises.\<close>

definition saves_figure :: "string \<Rightarrow> callable" where
  "saves_figure file_name =
     \<lparr>parameters = [PathAnnotation], figaroname = Some file_name, figaroext = Some ''pdf'',
      call = (\<lambda>save_path d. open_w save_path None d)\<rparr>"

definition two_parameters :: callable where
  "two_parameters =
     \<lparr>parameters = [PathAnnotation, OtherAnnotation], figaroname = Some ''wide'',
      figaroext = Some ''pdf'', call = (\<lambda>save_path d. open_w save_path None d)\<rparr>"


text \<open>A figure function that writes its output file and removes that of \<open>fig_line\<close>.\<close>

definition removes_line :: callable where
  "removes_line =
     \<lparr>parameters = [PathAnnotation], figaroname = Some ''clean'', figaroext = Some ''pdf'',
      call = (\<lambda>save_path d. open_w save_path None (AList.delete [''figures'', ''line.pdf''] d))\<rparr>"

definition raises :: callable where
  "raises =
     \<lparr>parameters = [PathAnnotation], figaroname = Some ''broken'', figaroext = Some ''pdf'',
      call = (\<lambda>save_path d. Inl (OtherException ''ValueError''))\<rparr>"

definition toy_digest :: "string \<Rightarrow> byte list \<Rightarrow> string" where
  "toy_digest algorithm content =
     algorithm @ '':'' @ map (\<lambda>b. if b = 0 then CHR ''0'' else CHR ''1'') content"

definition example_env :: "(path \<Rightarrow> stmt list) \<Rightarrow> (path \<Rightarrow> string \<rightharpoonup> callable) \<Rightarrow> env" where
  "example_env trees modules =
     \<lparr>cwd = [], hashlib_new = toy_digest, read_bytes = (\<lambda>p. [1, 0]),
      ast_parse = (\<lambda>p. Inr (trees p)), exec_module = (\<lambda>p. Inr (modules p))\<rparr>"

definition example_args :: "bool \<Rightarrow> args" where
  "example_args forced =
     \<lparr>dir = Some [[''figscripts'']], out = [''figures''], gitignore = False, force = forced,
      metafile = [''.figaro.meta''], verbose = False\<rparr>"

definition example_disk :: "string \<Rightarrow> fs" where
  "example_disk script =
     [([], Dir), ([''figscripts''], Dir), ([''figscripts'', script], File None)]"

text \<open>A state whose store has one record, for \<open>line.py\<close>, with the given fields.\<close>

definition example_state :: "string option \<Rightarrow> path list option \<Rightarrow> fs \<Rightarrow> state" where
  "example_state c ds d =
     \<lparr>meta_content = [([''figscripts'', ''line.py''], \<lparr>stored_checksum = c, dependents = ds\<rparr>)],
      disk = d, printed = [], invoked = []\<rparr>"

section \<open>Properties of the discovery\<close>

subsection \<open>What the visitor computes\<close>

lemma is_figarotag_call_marks: "is_figarotag_call = marks"
proof (rule ext)
  fix dec
  show "is_figarotag_call dec = marks dec"
  proof (cases dec)
    case (Call func xs)
    then show ?thesis by (cases func) simp_all
  qed simp_all
qed


lemma fold_marks:
  "fold (\<lambda>dec acc. if marks dec then acc @ [name] else acc) decs acc =
     acc @ replicate (length (filter marks decs)) name"
proof (induction decs arbitrary: acc)
  case Nil
  show ?case by simp
next
  case (Cons dec decs)
  show ?case by (simp add: Cons.IH replicate_app_Cons_same)
qed

lemma fold_decorators:
  "fold (\<lambda>dec acc. if is_figarotag_call dec then acc @ [name] else acc) decs acc =
     acc @ replicate (length (filter marks decs)) name"
  by (simp add: is_figarotag_call_marks fold_marks)

lemma concat_map_concat:
  "concat (map f (concat (map g xs))) = concat (map (\<lambda>x. concat (map f (g x))) xs)"
  by (induction xs) simp_all

lemma fold_visit_body:
  assumes "\<And>x acc. x \<in> set body \<Longrightarrow> visit x acc = acc @ f x"
  shows "fold visit body acc = acc @ concat (map f body)"
  using assms
proof (induction body arbitrary: acc)
  case Nil
  show ?case by simp
next
  case (Cons x xs)
  have "fold visit xs (visit x acc) = visit x acc @ concat (map f xs)"
    using Cons.IH Cons.prems by simp
  then show ?case using Cons.prems by simp
qed

lemma visit_entries: "visit n acc = acc @ concat (map entries_of (defs n))"
proof (induction n arbitrary: acc)
  case (FunctionDef name decs body)
  have "fold visit body a = a @ concat (map (\<lambda>x. concat (map entries_of (defs x))) body)" for a
    using FunctionDef.IH by (rule fold_visit_body)
  moreover have "entries_of (name, decs) = replicate (length (filter marks decs)) name"
    by (simp add: entries_of_def tag_count_def)
  ultimately show ?case
    by (simp add: fold_decorators concat_map_concat)
next
  case (AsyncFunctionDef name decs body)
  have "fold visit body a = a @ concat (map (\<lambda>x. concat (map entries_of (defs x))) body)" for a
    using AsyncFunctionDef.IH by (rule fold_visit_body)
  then show ?case by (simp add: concat_map_concat)
next
  case (ClassDef name decs body)
  have "fold visit body a = a @ concat (map (\<lambda>x. concat (map entries_of (defs x))) body)" for a
    using ClassDef.IH by (rule fold_visit_body)
  then show ?case by (simp add: concat_map_concat)
next
  case (Block body)
  have "fold visit body a = a @ concat (map (\<lambda>x. concat (map entries_of (defs x))) body)" for a
    using Block.IH by (rule fold_visit_body)
  then show ?case by (simp add: concat_map_concat)
next
  case Simple
  show ?case by simp
qed

lemma tagged_functions_entries:
  "tagged_functions tree = concat (map entries_of (all_defs tree))"
proof -
  have "fold visit tree [] = [] @ concat (map (\<lambda>x. concat (map entries_of (defs x))) tree)"
    by (rule fold_visit_body) (rule visit_entries)
  then show ?thesis
    by (simp add: tagged_functions_def all_defs_def concat_map_concat)
qed





lemma entries_single:
  assumes "\<forall>d \<in> set ds. tag_count d \<le> 1"
  shows "concat (map entries_of ds) = map fst (filter tagged ds)"
  using assms
proof (induction ds)
  case Nil
  show ?case by simp
next
  case (Cons d ds)
  have "tag_count d = 0 \<or> tag_count d = 1" using Cons.prems by auto
  then show ?case using Cons by (auto simp: entries_of_def tagged_def)
qed

lemma entries_untagged:
  assumes "\<forall>d \<in> set ds. \<not> tagged d"
  shows "concat (map entries_of ds) = []"
  using assms by (induction ds) (auto simp: entries_of_def tagged_def)

lemma defs_split: "defs n = top_level_def n @ nested_in n"
  by (cases n) simp_all


lemma entries_top_level:
  assumes "\<forall>d \<in> set (nested_defs tree). \<not> tagged d"
  shows "concat (map entries_of (all_defs tree)) = concat (map entries_of (top_level_defs tree))"
  using assms
proof (induction tree)
  case Nil
  show ?case by (simp add: all_defs_def top_level_defs_def)
next
  case (Cons n tree)
  from Cons.prems have inner: "\<forall>d \<in> set (nested_in n). \<not> tagged d"
    and rest: "\<forall>d \<in> set (nested_defs tree). \<not> tagged d"
    by (simp_all add: nested_defs_def)
  from Cons.IH [OF rest] entries_untagged [OF inner] show ?case
    by (simp add: all_defs_def top_level_defs_def defs_split)
qed

lemma tagged_functions_top_level:
  assumes "\<forall>d \<in> set (nested_defs tree). \<not> tagged d"
  shows "tagged_functions tree = concat (map entries_of (top_level_defs tree))"
  using entries_top_level [OF assms] by (simp add: tagged_functions_entries)


subsection \<open>Claims about the discovery\<close>

text \<open>A method of a class that carries the tag is returned, although the file has no
  top-level function definition; the loop over the functions then looks the name up in the
  module.\<close>

lemma nested_method_discovered:
  "tagged_functions method_py = [''fig_method''] \<and> top_level_defs method_py = []"
  by (simp add: tagged_functions_def method_py_def top_level_defs_def)

text \<open>
  Claim C5, as the code has it by design. For a source file in which no function
  definition inside another statement carries the tag marker, discovery returns the names
  of the top-level function definitions that carry it, in declaration order, once for
  each decorator that is a call of the bare name \<open>figarotag\<close>: exactly the tagged
  top-level functions in declaration order when none carries the marker twice, and without
  duplicates when, in addition, their names differ. Nothing is said of a file with a
  tagged definition inside another statement.
\<close>

theorem discovery_top_level_order:
  assumes "\<forall>d \<in> set (nested_defs tree). \<not> tagged d"
  shows "tagged_functions tree = concat (map entries_of (top_level_defs tree))
    \<and> ((\<forall>d \<in> set (top_level_defs tree). tag_count d \<le> 1) \<longrightarrow>
          tagged_functions tree = map fst (filter tagged (top_level_defs tree)))
    \<and> ((\<forall>d \<in> set (top_level_defs tree). tag_count d \<le> 1)
          \<and> distinct (map fst (filter tagged (top_level_defs tree))) \<longrightarrow>
          distinct (tagged_functions tree))"
  by (simp add: tagged_functions_top_level [OF assms] entries_single)

theorem discovery_top_level_order_witness:
  "tagged_functions parabola_py = [''fig_parabola'', ''fig_parabola2'']
   \<and> distinct (tagged_functions parabola_py)"
proof -
  have nested: "\<forall>d \<in> set (nested_defs parabola_py). \<not> tagged d"
    by (simp add: nested_defs_def parabola_py_def)
  have once: "\<forall>d \<in> set (top_level_defs parabola_py). tag_count d \<le> 1"
    by (simp add: top_level_defs_def parabola_py_def tag_count_def)
  have names: "map fst (filter tagged (top_level_defs parabola_py))
      = [''fig_parabola'', ''fig_parabola2'']"
    by (simp add: top_level_defs_def parabola_py_def tagged_def tag_count_def)
  have different: "distinct (map fst (filter tagged (top_level_defs parabola_py)))"
    by (simp add: names)
  note order = discovery_top_level_order [OF nested]
  from order once have "tagged_functions parabola_py
      = map fst (filter tagged (top_level_defs parabola_py))"
    by blast
  moreover from order once different have "distinct (tagged_functions parabola_py)"
    by blast
  ultimately show ?thesis by (simp add: names)
qed

text \<open>The claim as written fails: with top-level definitions only, a function that
  carries the tag twice, and two tagged definitions of one name, give the name twice.\<close>

theorem repeated_names_discovered:
  "nested_defs twice_py = []
   \<and> tagged_functions twice_py = [''fig_twice'', ''fig_twice'']
   \<and> tagged_functions
       [FunctionDef ''fig'' [Call (Name ''figarotag'') []] [Simple],
        FunctionDef ''fig'' [Call (Name ''figarotag'') []] [Simple]]
     = [''fig'', ''fig'']"
  by (simp add: tagged_functions_def twice_py_def nested_defs_def)






section \<open>Properties of the checksum\<close>

lemma read_chunks_all: "read_chunks unread h = h @ unread"
proof (induction unread h rule: read_chunks.induct)
  case (1 unread h)
  show ?case
  proof (cases "take 8192 unread = []")
    case True
    then have "unread = []" by simp
    then show ?thesis by (subst read_chunks.simps) simp
  next
    case False
    have "read_chunks unread h =
        read_chunks (drop 8192 unread) (hash_update h (take 8192 unread))"
      using False by (subst read_chunks.simps) simp
    also have "\<dots> = hash_update h (take 8192 unread) @ drop 8192 unread"
      using False by (rule "1.IH")
    also have "\<dots> = h @ unread"
      by (simp add: hash_update_def)
    finally show ?thesis .
  qed
qed

text \<open>
  Claim C9. The checksum computed by reading the file in chunks of 8192 bytes is the
  digest of the whole content of the file, for every digest function and every content;
  hence two computations over the same content give the same digest string.
\<close>

theorem checksum_whole_content:
  "checksum digest content algorithm = digest algorithm content
   \<and> (content' = content \<longrightarrow>
        checksum digest content' algorithm = checksum digest content algorithm)"
  by (simp add: checksum_def read_chunks_all)

theorem checksum_whole_content_witness:
  "checksum toy_digest [1, 0, 1] ''sha256'' = ''sha256:101''
   \<and> checksum toy_digest ([1, 0] @ [1]) ''sha256'' = checksum toy_digest [1, 0, 1] ''sha256''"
  using checksum_whole_content [of toy_digest "[1, 0, 1]" "''sha256''" "[1, 0] @ [1]"]
  by (simp add: toy_digest_def)

section \<open>Properties of the staleness evaluation\<close>

lemmas eval_defs = evaluate_def check_dependents_def print_msg_def

lemma evaluate_disk [simp]:
  "disk (snd (evaluate forced fp h sp s)) = disk s"
  "invoked (snd (evaluate forced fp h sp s)) = invoked s"
  by (auto simp: eval_defs split: option.splits)

lemma evaluate_skip_iff:
  "fst (evaluate forced fp h sp s) = Skip \<longleftrightarrow>
     (\<exists>r. map_of (meta_content s) fp = Some r \<and> stored_checksum r = Some h \<and> \<not> forced
        \<and> is_file (disk s) sp)"
  by (auto simp: eval_defs split: option.splits)

lemma evaluate_well_formed_run:
  assumes "\<forall>r. map_of (meta_content s) fp = Some r \<longrightarrow>
             stored_checksum r \<noteq> None \<and> dependents r \<noteq> None"
    and "fst (evaluate forced fp h sp s) \<noteq> Skip"
  shows "fst (evaluate forced fp h sp s) = Run"
  using assms by (auto simp: eval_defs split: option.splits if_splits)

lemma evaluate_checksum_updated:
  assumes "\<forall>r. map_of (meta_content s) fp = Some r \<longrightarrow>
             stored_checksum r \<noteq> None \<and> dependents r \<noteq> None"
    and "forced \<or> (\<forall>r. map_of (meta_content s) fp = Some r \<longrightarrow> stored_checksum r \<noteq> Some h)"
  shows "\<exists>r'. map_of (meta_content (snd (evaluate forced fp h sp s))) fp = Some r'
     \<and> stored_checksum r' = Some h"
  using assms by (auto simp: eval_defs update_conv' split: option.splits if_splits)

lemma evaluate_no_checksum:
  assumes "map_of (meta_content s) fp = Some r" and "stored_checksum r = None"
  shows "evaluate forced fp h sp s = (Corrupt, print_msg MetaCorrupt s)"
  using assms by (simp add: evaluate_def)

lemma evaluate_no_dependents:
  assumes "map_of (meta_content s) fp = Some r" and "dependents r = None"
  shows "fst (evaluate forced fp h sp s) \<noteq> Run"
    and "fst (evaluate forced fp h sp s) = Corrupt \<longrightarrow>
           printed (snd (evaluate forced fp h sp s)) = printed s @ [MetaCorrupt]"
    and "\<exists>r'. map_of (meta_content (snd (evaluate forced fp h sp s))) fp = Some r'
           \<and> dependents r' = None"
  using assms by (auto simp: eval_defs update_conv' split: option.splits if_splits)

lemma dependents_grow_refl: "dependents_grow m m"
  by (auto simp: dependents_grow_def)

lemma dependents_grow_trans:
  "dependents_grow m m' \<Longrightarrow> dependents_grow m' m'' \<Longrightarrow> dependents_grow m m''"
  unfolding dependents_grow_def by (meson prefix_order.trans)

lemma evaluate_grows:
  "dependents_grow (meta_content s) (meta_content (snd (evaluate forced fp h sp s)))"
  unfolding dependents_grow_def
  by (auto simp: eval_defs update_conv' split: option.splits if_splits)

lemma evaluate_idempotent_add:
  assumes "map_of (meta_content s) fp = Some r" and "dependents r = Some ds" and "sp \<in> set ds"
  shows "\<exists>r'. map_of (meta_content (snd (evaluate forced fp h sp s))) fp = Some r'
           \<and> dependents r' = Some ds"
  using assms by (auto simp: eval_defs update_conv' split: option.splits if_splits)

lemma evaluate_run_adds:
  assumes "fst (evaluate forced fp h sp s) = Run"
  shows "\<exists>r' ds'. map_of (meta_content (snd (evaluate forced fp h sp s))) fp = Some r'
           \<and> dependents r' = Some ds' \<and> sp \<in> set ds'"
  using assms by (auto simp: eval_defs update_conv' split: option.splits if_splits)

lemma evaluate_corrupt_iff:
  "fst (evaluate forced fp h sp s) = Corrupt \<longleftrightarrow>
     (\<exists>r. map_of (meta_content s) fp = Some r
        \<and> (stored_checksum r = None
           \<or> (dependents r = None
              \<and> \<not> (stored_checksum r = Some h \<and> \<not> forced \<and> is_file (disk s) sp))))"
  by (auto simp: eval_defs split: option.splits)

lemma evaluate_printed:
  "fst (evaluate forced fp h sp s) = Skip \<Longrightarrow> snd (evaluate forced fp h sp s) = s"
  "fst (evaluate forced fp h sp s) = Corrupt \<Longrightarrow>
     printed (snd (evaluate forced fp h sp s)) = printed s @ [MetaCorrupt]"
  "fst (evaluate forced fp h sp s) = Run \<Longrightarrow>
     printed (snd (evaluate forced fp h sp s)) = printed s"
  by (auto simp: eval_defs split: option.splits if_splits)

lemma evaluate_run_iff:
  "fst (evaluate forced fp h sp s) = Run \<longleftrightarrow>
     (map_of (meta_content s) fp = None
      \<or> (\<exists>r c ds. map_of (meta_content s) fp = Some r \<and> stored_checksum r = Some c
            \<and> dependents r = Some ds
            \<and> \<not> (c = h \<and> \<not> forced \<and> is_file (disk s) sp)))"
  by (auto simp: eval_defs split: option.splits)

section \<open>Properties of the loops\<close>

lemma run_function_no_target:
  assumes "target a module fnc = None"
  shows "\<exists>m. final_state (run_function e a fp module fnc s) = print_msg m s"
  using assms
  by (auto simp: target_def run_function_def split: option.splits if_splits)

lemma run_function_target:
  assumes "target a module fnc = Some sp"
    and "evaluate (force a) fp (checksum (hashlib_new e) (read_bytes e fp) ''sha256'') sp s = (v, s')"
  shows "\<exists>g. module fnc = Some g \<and> run_function e a fp module fnc s =
     (if v = Run then
        (case call g sp (disk s') of
           Inl ex \<Rightarrow> Inl (ex, s'\<lparr>invoked := invoked s' @ [(fp, fnc)]\<rparr>)
         | Inr d \<Rightarrow> Inr (s'\<lparr>disk := d, invoked := invoked s' @ [(fp, fnc)]\<rparr>))
      else Inr s')"
  using assms
  by (cases v) (auto simp: target_def run_function_def split: option.splits if_splits)

lemma run_function_meta:
  "meta_content (final_state (run_function e a fp module fnc s)) = meta_content s
   \<or> (\<exists>sp. meta_content (final_state (run_function e a fp module fnc s)) =
         meta_content (snd (evaluate (force a) fp
            (checksum (hashlib_new e) (read_bytes e fp) ''sha256'') sp s)))"
proof (cases "target a module fnc")
  case None
  from run_function_no_target [OF this, of e fp s] show ?thesis
    by (auto simp: print_msg_def)
next
  case (Some sp)
  obtain v s' where ev:
    "evaluate (force a) fp (checksum (hashlib_new e) (read_bytes e fp) ''sha256'') sp s = (v, s')"
    by (cases "evaluate (force a) fp (checksum (hashlib_new e) (read_bytes e fp) ''sha256'') sp s")
  from run_function_target [OF Some ev] obtain g :: callable where rf:
    "run_function e a fp module fnc s =
     (if v = Run then
        (case call g sp (disk s') of
           Inl ex \<Rightarrow> Inl (ex, s'\<lparr>invoked := invoked s' @ [(fp, fnc)]\<rparr>)
         | Inr d \<Rightarrow> Inr (s'\<lparr>disk := d, invoked := invoked s' @ [(fp, fnc)]\<rparr>))
      else Inr s')"
    by blast
  have "meta_content (final_state (run_function e a fp module fnc s)) = meta_content s'"
    by (cases "v = Run"; cases "call g sp (disk s')") (simp_all add: rf)
  with ev show ?thesis by (metis snd_conv)
qed

lemma run_function_grows:
  "dependents_grow (meta_content s) (meta_content (final_state (run_function e a fp module fnc s)))"
  using run_function_meta [of e a fp module fnc s]
  by (auto simp: dependents_grow_refl evaluate_grows)

lemma run_functions_grows:
  "dependents_grow (meta_content s) (meta_content (final_state (run_functions e a fp module fncts s)))"
proof (induction fncts arbitrary: s)
  case Nil
  show ?case by (simp add: dependents_grow_refl)
next
  case (Cons fnc fncts)
  show ?case
  proof (cases "run_function e a fp module fnc s")
    case (Inl x)
    with run_function_grows [of s e a fp module fnc] show ?thesis by simp
  next
    case (Inr s')
    with run_function_grows [of s e a fp module fnc]
    have "dependents_grow (meta_content s) (meta_content s')" by simp
    moreover have "dependents_grow (meta_content s')
        (meta_content (final_state (run_functions e a fp module fncts s')))"
      by (rule Cons.IH)
    ultimately show ?thesis using Inr by (auto intro: dependents_grow_trans)
  qed
qed

lemma run_generators_grows:
  "dependents_grow (meta_content s) (meta_content (final_state (run_generators e a items s)))"
proof (induction items arbitrary: s)
  case Nil
  show ?case by (simp add: dependents_grow_refl)
next
  case (Cons item items)
  obtain fp fncts where item: "item = (fp, fncts)" by (cases item)
  show ?case
  proof (cases "exec_module e fp")
    case (Inl ex)
    then show ?thesis using item by (simp add: dependents_grow_refl)
  next
    case (Inr module)
    note m = this
    show ?thesis
    proof (cases "run_functions e a fp module fncts s")
      case (Inl x)
      with run_functions_grows [of s e a fp module fncts] show ?thesis
        using item m by simp
    next
      case (Inr s')
      with run_functions_grows [of s e a fp module fncts]
      have "dependents_grow (meta_content s) (meta_content s')" by simp
      moreover have "dependents_grow (meta_content s')
          (meta_content (final_state (run_generators e a items s')))"
        by (rule Cons.IH)
      ultimately show ?thesis using Inr item m by (auto intro: dependents_grow_trans)
    qed
  qed
qed

lemma main_body_grows:
  assumes "main_body e a dirs s = Inr s'" and "load_meta (disk s) (metafile a) = Inr m"
  shows "dependents_grow m (meta_content s')"
proof -
  from assms obtain gens sl where
    "run_generators e a gens (s\<lparr>meta_content := m\<rparr>) = Inr sl" "meta_content s' = meta_content sl"
    by (auto simp: main_body_def split: sum.splits)
  with run_generators_grows [of "s\<lparr>meta_content := m\<rparr>" e a gens] show ?thesis by simp
qed

lemma run_function_not_invoked:
  assumes "\<forall>sp. fst (evaluate (force a) fp (checksum (hashlib_new e) (read_bytes e fp) ''sha256'') sp s) \<noteq> Run"
  shows "invoked (final_state (run_function e a fp module fnc s)) = invoked s
    \<and> disk (final_state (run_function e a fp module fnc s)) = disk s"
proof (cases "target a module fnc")
  case None
  from run_function_no_target [OF this, of e fp s] show ?thesis
    by (auto simp: print_msg_def)
next
  case (Some sp)
  obtain v s' where ev: "evaluate (force a) fp (checksum (hashlib_new e) (read_bytes e fp) ''sha256'') sp s = (v, s')"
    by (cases "evaluate (force a) fp (checksum (hashlib_new e) (read_bytes e fp) ''sha256'') sp s")
  with assms have "v \<noteq> Run" by (metis fst_conv)
  moreover from ev have "disk s' = disk s" "invoked s' = invoked s"
    using evaluate_disk [of "force a" fp "checksum (hashlib_new e) (read_bytes e fp) ''sha256''" sp s]
    by simp_all
  ultimately show ?thesis
    using run_function_target [OF Some ev] by auto
qed

section \<open>Properties of the whole run\<close>

lemma check_dirs_None_iff:
  "check_dirs d ps = None \<longleftrightarrow> (\<forall>p \<in> set ps. exists d p \<and> is_dir d p)"
  by (induction ps) auto

lemma configure_out_is_dir:
  assumes "configure_out a d = Inr d'" and "\<not> exists d (out a)"
  shows "is_dir d' (out a)"
  using assms
  by (auto simp: configure_out_def mkdir_def is_dir_def exists_def update_conv'
      split: option.splits fnode.splits)

lemma configure_out_exists:
  assumes "exists d (out a)"
  shows "configure_out a d = Inr d"
  using assms by (simp add: configure_out_def)


lemma main_valid:
  assumes "\<not> invalid_input a d"
  shows "\<exists>dirs. dir a = Some dirs \<and>
    (case configure_out a d of
       Inl ex \<Rightarrow> main e a d = (Traceback ex, init_state d)
     | Inr d' \<Rightarrow>
        (case main_body e a dirs (init_state d') of
           Inl (ex, s) \<Rightarrow> main e a d = (Traceback ex, s)
         | Inr s \<Rightarrow> main e a d = (Exit 0, s)))"
proof -
  from assms obtain dirs where dirs: "dir a = Some dirs" "dirs \<noteq> []"
    and ok: "\<forall>p \<in> set dirs. exists d p \<and> is_dir d p"
    and outd: "exists d (out a) \<longrightarrow> is_dir d (out a)"
    by (auto simp: invalid_input_def split: option.splits)
  from ok have cd: "check_dirs d dirs = None" by (simp add: check_dirs_None_iff)
  have "is_dir d' (out a)" if "configure_out a d = Inr d'" for d'
    using that outd configure_out_is_dir [OF that] configure_out_exists [of d a]
    by (cases "exists d (out a)") auto
  with dirs cd show ?thesis
    by (auto simp: main_def split: sum.splits prod.splits)
qed

lemma main_valid_exit:
  assumes "\<not> invalid_input a d"
  shows "fst (main e a d) \<noteq> Exit 1"
    and "fst (main e a d) = Exit 0 \<or> (\<exists>ex. fst (main e a d) = Traceback ex)"
proof -
  from main_valid [OF assms, of e] obtain dirs where m:
    "case configure_out a d of
       Inl ex \<Rightarrow> main e a d = (Traceback ex, init_state d)
     | Inr d' \<Rightarrow>
        (case main_body e a dirs (init_state d') of
           Inl (ex, s) \<Rightarrow> main e a d = (Traceback ex, s)
         | Inr s \<Rightarrow> main e a d = (Exit 0, s))"
    by blast
  have "(\<exists>s. main e a d = (Exit 0, s)) \<or> (\<exists>ex s. main e a d = (Traceback ex, s))"
  proof (cases "configure_out a d")
    case (Inl ex)
    with m show ?thesis by simp
  next
    case (Inr d')
    with m show ?thesis
      by (cases "main_body e a dirs (init_state d')") auto
  qed
  then show "fst (main e a d) \<noteq> Exit 1"
    and "fst (main e a d) = Exit 0 \<or> (\<exists>ex. fst (main e a d) = Traceback ex)"
    by auto
qed





section \<open>Claims about the staleness evaluation\<close>

text \<open>
  Claim C1, as the code has it. The decision is \<open>skip\<close> exactly when the store holds a
  record for the file whose checksum equals the fresh one, force is not set and a regular
  file is at the output path; then nothing is changed and nothing is printed. It is
  \<open>run\<close> exactly when there is no record, or the record has both fields and the condition
  of \<open>skip\<close> fails. In the cases that are left, a record without checksum, or without
  dependents while the condition of \<open>skip\<close> fails, the corruption error is printed and
  the function is not run. For a store whose record of the file, if there is one, has both
  fields, every case other than \<open>skip\<close> is therefore \<open>run\<close>, and when the stored checksum
  differs or force is set the record then holds the fresh checksum.
\<close>

theorem staleness_decision:
  "(fst (evaluate forced fp h sp s) = Skip \<longleftrightarrow>
      (\<exists>r. map_of (meta_content s) fp = Some r \<and> stored_checksum r = Some h \<and> \<not> forced
         \<and> is_file (disk s) sp))
   \<and> (fst (evaluate forced fp h sp s) = Run \<longleftrightarrow>
      (map_of (meta_content s) fp = None
       \<or> (\<exists>r c ds. map_of (meta_content s) fp = Some r \<and> stored_checksum r = Some c
             \<and> dependents r = Some ds
             \<and> \<not> (c = h \<and> \<not> forced \<and> is_file (disk s) sp))))
   \<and> (fst (evaluate forced fp h sp s) = Corrupt \<longleftrightarrow>
      (\<exists>r. map_of (meta_content s) fp = Some r
         \<and> (stored_checksum r = None
            \<or> (dependents r = None
               \<and> \<not> (stored_checksum r = Some h \<and> \<not> forced \<and> is_file (disk s) sp)))))
   \<and> (fst (evaluate forced fp h sp s) = Skip \<longrightarrow> snd (evaluate forced fp h sp s) = s)
   \<and> (fst (evaluate forced fp h sp s) = Corrupt \<longrightarrow>
        printed (snd (evaluate forced fp h sp s)) = printed s @ [MetaCorrupt])
   \<and> ((\<forall>r. map_of (meta_content s) fp = Some r \<longrightarrow>
           stored_checksum r \<noteq> None \<and> dependents r \<noteq> None) \<longrightarrow>
        (fst (evaluate forced fp h sp s) \<noteq> Skip \<longrightarrow> fst (evaluate forced fp h sp s) = Run)
        \<and> (forced \<or> (\<forall>r. map_of (meta_content s) fp = Some r \<longrightarrow> stored_checksum r \<noteq> Some h) \<longrightarrow>
             (\<exists>r'. map_of (meta_content (snd (evaluate forced fp h sp s))) fp = Some r'
                \<and> stored_checksum r' = Some h)))"
proof -
  note skip = evaluate_skip_iff [of forced fp h sp s]
  note run = evaluate_run_iff [of forced fp h sp s]
  note corrupt = evaluate_corrupt_iff [of forced fp h sp s]
  note p = evaluate_printed(1,2) [of forced fp h sp s]
  note wf = evaluate_well_formed_run [of s fp forced h sp]
    evaluate_checksum_updated [of s fp forced h sp]
  show ?thesis
    apply (intro conjI)
    apply (rule skip)
    apply (rule run)
    apply (rule corrupt)
    using p wf apply blast+
    done
qed

theorem staleness_decision_witness:
  "fst (evaluate False [''figscripts'', ''line.py''] ''new'' [''figures'', ''line.pdf'']
         (example_state (Some ''old'') (Some [[''figures'', ''line.pdf'']])
            [([''figures'', ''line.pdf''], File None)])) = Run
   \<and> (\<exists>r'. map_of (meta_content (snd (evaluate False [''figscripts'', ''line.py''] ''new''
                [''figures'', ''line.pdf'']
                (example_state (Some ''old'') (Some [[''figures'', ''line.pdf'']])
                   [([''figures'', ''line.pdf''], File None)]))))
          [''figscripts'', ''line.py''] = Some r'
        \<and> stored_checksum r' = Some ''new'')"
  using staleness_decision [of False "[''figscripts'', ''line.py'']" "''new''"
      "[''figures'', ''line.pdf'']"
      "example_state (Some ''old'') (Some [[''figures'', ''line.pdf'']])
         [([''figures'', ''line.pdf''], File None)]"]
  by (simp add: example_state_def)

text \<open>The claim as written fails: with a changed checksum and a record without
  dependents the decision is not \<open>run\<close>.\<close>

theorem changed_checksum_not_run:
  "fst (evaluate False [''figscripts'', ''line.py''] ''new'' [''figures'', ''line.pdf'']
         (example_state (Some ''old'') None [])) = Corrupt"
  by (simp add: example_state_def eval_defs)

text \<open>
  Claim C4, as the code has it by design. For a record without checksum the evaluation
  reports the corruption and leaves the state otherwise as it was. For a record without
  dependents the decision is never \<open>run\<close> and the record stays in the store without
  dependents. It is \<open>skip\<close> exactly when the checksum is unchanged, force is not set and
  the output file exists, and then nothing is printed and nothing is changed; in every other
  case the corruption is reported. In both cases the function is not called and the file
  system is not touched.
\<close>

theorem corrupt_record_not_run:
  assumes "map_of (meta_content s) fp = Some r"
  shows "(stored_checksum r = None \<longrightarrow>
            evaluate forced fp h sp s = (Corrupt, print_msg MetaCorrupt s))
    \<and> (dependents r = None \<longrightarrow>
          fst (evaluate forced fp h sp s) \<noteq> Run
          \<and> (fst (evaluate forced fp h sp s) = Skip \<longleftrightarrow>
               stored_checksum r = Some h \<and> \<not> forced \<and> is_file (disk s) sp)
          \<and> (fst (evaluate forced fp h sp s) = Skip \<longrightarrow>
               evaluate forced fp h sp s = (Skip, s))
          \<and> (fst (evaluate forced fp h sp s) \<noteq> Skip \<longrightarrow>
               fst (evaluate forced fp h sp s) = Corrupt
               \<and> printed (snd (evaluate forced fp h sp s)) = printed s @ [MetaCorrupt])
          \<and> (\<exists>r'. map_of (meta_content (snd (evaluate forced fp h sp s))) fp = Some r'
                \<and> dependents r' = None))
    \<and> (stored_checksum r = None \<or> dependents r = None \<longrightarrow>
          invoked (final_state (run_function e a fp module fnc s)) = invoked s
          \<and> disk (final_state (run_function e a fp module fnc s)) = disk s)"
proof -
  have never: "fst (evaluate f fp c p s) \<noteq> Run"
    if "stored_checksum r = None \<or> dependents r = None" for f c p
    using that evaluate_no_checksum [OF assms, of f c p] evaluate_no_dependents(1) [OF assms, of f c p]
    by auto
  have quiet: "invoked (final_state (run_function e a fp module fnc s)) = invoked s
      \<and> disk (final_state (run_function e a fp module fnc s)) = disk s"
    if "stored_checksum r = None \<or> dependents r = None"
    by (rule run_function_not_invoked) (simp add: never [OF that])
  have skip: "fst (evaluate forced fp h sp s) = Skip \<longleftrightarrow>
      stored_checksum r = Some h \<and> \<not> forced \<and> is_file (disk s) sp"
    using assms by (simp add: evaluate_skip_iff)
  have same: "evaluate forced fp h sp s = (Skip, s)"
    if "fst (evaluate forced fp h sp s) = Skip"
    using that evaluate_printed(1) [OF that] by (metis prod.collapse)
  have other: "fst (evaluate forced fp h sp s) = Corrupt
      \<and> printed (snd (evaluate forced fp h sp s)) = printed s @ [MetaCorrupt]"
    if "dependents r = None" "fst (evaluate forced fp h sp s) \<noteq> Skip"
  proof -
    from never that(1) have "fst (evaluate forced fp h sp s) \<noteq> Run" by blast
    with that(2) have "fst (evaluate forced fp h sp s) = Corrupt"
      by (cases "fst (evaluate forced fp h sp s)") simp_all
    with evaluate_printed(2) show ?thesis by blast
  qed
  show ?thesis
    using evaluate_no_checksum [OF assms, of forced h sp]
      evaluate_no_dependents(1,3) [OF assms, of forced h sp]
      quiet skip same other
    by blast
qed

theorem corrupt_record_not_run_witness:
  "evaluate False [''figscripts'', ''line.py''] ''new'' [''figures'', ''line.pdf'']
      (example_state None (Some []) [])
     = (Corrupt, print_msg MetaCorrupt (example_state None (Some []) []))
   \<and> invoked (final_state (run_function (example_env (\<lambda>p. line_py) (\<lambda>p. Map.empty))
        (example_args False) [''figscripts'', ''line.py''] [''fig_line'' \<mapsto> saves_figure ''line'']
        ''fig_line'' (example_state None (Some []) []))) = []"
proof -
  have "map_of (meta_content (example_state None (Some []) [])) [''figscripts'', ''line.py'']
      = Some \<lparr>stored_checksum = None, dependents = Some []\<rparr>"
    by (simp add: example_state_def)
  from corrupt_record_not_run [OF this, of False "''new''" "[''figures'', ''line.pdf'']"
      "example_env (\<lambda>p. line_py) (\<lambda>p. Map.empty)" "example_args False"
      "[''fig_line'' \<mapsto> saves_figure ''line'']" "''fig_line''"]
  show ?thesis by (simp add: example_state_def)
qed

text \<open>The claim as written fails: a record without dependents whose checksum is
  unchanged, with the output file in place, is skipped and nothing is reported.\<close>

theorem missing_dependents_skipped_silently:
  "evaluate False [''figscripts'', ''line.py''] ''same'' [''figures'', ''line.pdf'']
      (example_state (Some ''same'') None [([''figures'', ''line.pdf''], File None)])
     = (Skip, example_state (Some ''same'') None [([''figures'', ''line.pdf''], File None)])"
  by (simp add: example_state_def eval_defs is_file_def)

text \<open>With a changed checksum the checksum of such a record is overwritten before the
  missing dependents are found.\<close>

lemma checksum_overwritten_before_dependents_check:
  "evaluate False [''figscripts'', ''line.py''] ''new'' [''figures'', ''line.pdf'']
      (example_state (Some ''old'') None [])
     = (Corrupt, print_msg MetaCorrupt (example_state (Some ''new'') None []))"
  by (simp add: example_state_def eval_defs)

text \<open>
  Claim C7. Over the loop of a run, and from the store loaded to the store written, the
  dependents of every record only grow: the record stays, and its old list of dependents
  is a prefix of the new one. Adding an output path that is already present leaves the
  list as it is, and after every \<open>run\<close> decision the output path is among the dependents
  of the file's record.
\<close>

theorem dependents_only_grow:
  "dependents_grow (meta_content s)
      (meta_content (final_state (run_generators e a fig_generators s)))
   \<and> (\<forall>s' m. main_body e a dirs s = Inr s' \<and> load_meta (disk s) (metafile a) = Inr m \<longrightarrow>
         dependents_grow m (meta_content s'))
   \<and> (\<forall>r ds. map_of (meta_content s) fp = Some r \<and> dependents r = Some ds \<and> sp \<in> set ds \<longrightarrow>
         (\<exists>r'. map_of (meta_content (snd (evaluate forced fp h sp s))) fp = Some r'
            \<and> dependents r' = Some ds))
   \<and> (fst (evaluate forced fp h sp s) = Run \<longrightarrow>
         (\<exists>r' ds'. map_of (meta_content (snd (evaluate forced fp h sp s))) fp = Some r'
            \<and> dependents r' = Some ds' \<and> sp \<in> set ds'))"
  using run_generators_grows [of s e a fig_generators] main_body_grows [of e a dirs s]
    evaluate_idempotent_add [of s fp _ _ sp forced h] evaluate_run_adds [of forced fp h sp s]
  by blast

theorem dependents_only_grow_witness:
  "dependents_grow
      (meta_content (example_state (Some ''old'') (Some [[''figures'', ''old.pdf'']]) [([], Dir), ([''figures''], Dir)]))
      (meta_content (final_state (run_generators
         (example_env (\<lambda>p. line_py) (\<lambda>p. [''fig_line'' \<mapsto> saves_figure ''line'']))
         (example_args False) [([''figscripts'', ''line.py''], [''fig_line''])]
         (example_state (Some ''old'') (Some [[''figures'', ''old.pdf'']]) [([], Dir), ([''figures''], Dir)]))))
   \<and> meta_content (final_state (run_generators
         (example_env (\<lambda>p. line_py) (\<lambda>p. [''fig_line'' \<mapsto> saves_figure ''line'']))
         (example_args False) [([''figscripts'', ''line.py''], [''fig_line''])]
         (example_state (Some ''old'') (Some [[''figures'', ''old.pdf'']]) [([], Dir), ([''figures''], Dir)])))
      = [([''figscripts'', ''line.py''],
          \<lparr>stored_checksum = Some ''sha256:10'',
           dependents = Some [[''figures'', ''old.pdf''], [''figures'', ''line.pdf'']]\<rparr>)]
   \<and> fst (evaluate False [''figscripts'', ''line.py''] ''new'' [''figures'', ''line.pdf'']
         (example_state (Some ''old'') (Some [[''figures'', ''old.pdf'']]) [([], Dir), ([''figures''], Dir)])) = Run"
  using dependents_only_grow [of
      "example_state (Some ''old'') (Some [[''figures'', ''old.pdf'']]) [([], Dir), ([''figures''], Dir)]"
      "example_env (\<lambda>p. line_py) (\<lambda>p. [''fig_line'' \<mapsto> saves_figure ''line''])"
      "example_args False" "[([''figscripts'', ''line.py''], [''fig_line''])]"
      "[]" "[''figscripts'', ''line.py'']" "[''figures'', ''line.pdf'']" False "''new''"]
  by (simp add: example_state_def example_env_def example_args_def saves_figure_def
      run_function_def eval_defs save_path_of_def checksum_def read_chunks_all toy_digest_def
      open_w_def is_file_def)

section \<open>Claims about exit codes and errors\<close>

lemmas model_defs = main_def main_body_def init_state_def configure_out_def mkdir_def open_w_def
  cleanup_def load_meta_def src_files_def rglob_def iterdir_def exists_def is_dir_def is_file_def
  run_function_def evaluate_def check_dependents_def print_msg_def save_path_of_def checksum_def
  tagged_functions_def example_env_def example_args_def example_disk_def example_state_def
  saves_figure_def two_parameters_def raises_def toy_digest_def line_py_def parabola_py_def
  method_py_def bare_py_def read_chunks_all strict_prefix_def suffix_def invalid_input_def






text \<open>Under \<open>--verbose\<close> a source file outside the working directory ends the run.\<close>

lemma verbose_outside_cwd:
  "fst (main ((example_env (\<lambda>p. line_py) (\<lambda>p. [''fig_line'' \<mapsto> saves_figure ''line'']))
               \<lparr>cwd := [''home'']\<rparr>)
          ((example_args False)\<lparr>verbose := True\<rparr>) (example_disk ''line.py''))
     = Traceback ValueError"
  by (simp add: model_defs)

text \<open>
  Claim C3 does not hold of the code. For a discovered name that the module does not
  define (here a method of a class, which the visitor returns) the error is printed and
  \<open>getattr\<close> then raises: the run ends with \<open>AttributeError\<close>, the remaining functions
  and files are not handled and the store is not written. The same happens for a function
  without the attribute \<open>_figaroname\<close> or \<open>_figaroext\<close>.
\<close>

theorem missing_attribute_ends_run:
  "main (example_env (\<lambda>p. method_py) (\<lambda>p. Map.empty)) (example_args False)
     (example_disk ''method.py'')
   = (Traceback AttributeError,
      \<lparr>meta_content = [],
       disk = [([], Dir), ([''figscripts''], Dir), ([''figscripts'', ''method.py''], File None),
               ([''figures''], Dir)],
       printed = [FunctionNotFound], invoked = []\<rparr>)
   \<and> run_functions (example_env (\<lambda>p. line_py) (\<lambda>p. Map.empty)) (example_args False)
       [''figscripts'', ''line.py'']
       [''fig_line'' \<mapsto> (saves_figure ''line'')\<lparr>figaroext := None\<rparr>,
        ''fig_other'' \<mapsto> saves_figure ''other'']
       [''fig_line'', ''fig_other''] (example_state None None [])
     = Inl (AttributeError, print_msg ExtNotFound (example_state None None []))"
  by (simp add: model_defs)

section \<open>Idempotence of a second run\<close>

subsection \<open>Regular files are kept\<close>









subsection \<open>Settled output paths\<close>
























text \<open>Why the other two conditions are needed: after a first run that a raising function
  ended, the store was not written and the function before it runs again; and a function
  that removes the output file of another makes that one run again.\<close>

lemma first_run_ended_by_exception_runs_again:
  "main (example_env (\<lambda>p. two_py)
           (\<lambda>p. [''fig_line'' \<mapsto> saves_figure ''line'', ''fig_clean'' \<mapsto> raises]))
     (example_args False) (example_disk ''two.py'')
   = (Traceback (OtherException ''ValueError''),
      \<lparr>meta_content =
         [([''figscripts'', ''two.py''],
           \<lparr>stored_checksum = Some ''sha256:10'',
            dependents = Some [[''figures'', ''line.pdf''], [''figures'', ''broken.pdf'']]\<rparr>)],
       disk =
         [([], Dir), ([''figscripts''], Dir), ([''figscripts'', ''two.py''], File None),
          ([''figures''], Dir), ([''figures'', ''line.pdf''], File None)],
       printed = [],
       invoked = [([''figscripts'', ''two.py''], ''fig_line''),
                  ([''figscripts'', ''two.py''], ''fig_clean'')]\<rparr>)
   \<and> invoked (snd (main (example_env (\<lambda>p. two_py)
           (\<lambda>p. [''fig_line'' \<mapsto> saves_figure ''line'', ''fig_clean'' \<mapsto> raises]))
     (example_args False)
     [([], Dir), ([''figscripts''], Dir), ([''figscripts'', ''two.py''], File None),
      ([''figures''], Dir), ([''figures'', ''line.pdf''], File None)]))
     = [([''figscripts'', ''two.py''], ''fig_line''),
        ([''figscripts'', ''two.py''], ''fig_clean'')]"
  by (simp add: model_defs two_py_def)

lemma routine_removing_a_file_runs_again:
  "main (example_env (\<lambda>p. two_py)
           (\<lambda>p. [''fig_line'' \<mapsto> saves_figure ''line'', ''fig_clean'' \<mapsto> removes_line]))
     (example_args False) (example_disk ''two.py'')
   = (Exit 0,
      \<lparr>meta_content =
         [([''figscripts'', ''two.py''],
           \<lparr>stored_checksum = Some ''sha256:10'',
            dependents = Some [[''figures'', ''line.pdf''], [''figures'', ''clean.pdf'']]\<rparr>)],
       disk =
         [([], Dir), ([''figscripts''], Dir), ([''figscripts'', ''two.py''], File None),
          ([''figures''], Dir), ([''figures'', ''clean.pdf''], File None),
          ([''.figaro.meta''],
           File (Some [([''figscripts'', ''two.py''],
                        \<lparr>stored_checksum = Some ''sha256:10'',
                         dependents = Some [[''figures'', ''line.pdf''],
                                            [''figures'', ''clean.pdf'']]\<rparr>)]))],
       printed = [],
       invoked = [([''figscripts'', ''two.py''], ''fig_line''),
                  ([''figscripts'', ''two.py''], ''fig_clean'')]\<rparr>)
   \<and> invoked (snd (main (example_env (\<lambda>p. two_py)
           (\<lambda>p. [''fig_line'' \<mapsto> saves_figure ''line'', ''fig_clean'' \<mapsto> removes_line]))
     (example_args False)
     [([], Dir), ([''figscripts''], Dir), ([''figscripts'', ''two.py''], File None),
      ([''figures''], Dir), ([''figures'', ''clean.pdf''], File None),
      ([''.figaro.meta''],
       File (Some [([''figscripts'', ''two.py''],
                    \<lparr>stored_checksum = Some ''sha256:10'',
                     dependents = Some [[''figures'', ''line.pdf''],
                                        [''figures'', ''clean.pdf'']]\<rparr>)]))]))
     = [([''figscripts'', ''two.py''], ''fig_line'')]"
  by (simp add: model_defs two_py_def removes_line_def)

end
